theory Spec2Isabelle
  imports Main "HOL-Library.Word"
begin

section \<open>The rank counter of \<open>types/signctrled.go\<close>\<close>

text \<open>
  Go's \<open>int\<close> is taken at its amd64 width of 64 bits, like \<open>int64\<close>: both are
  \<open>64 word\<close>, read as two's complement. \<open>+\<close> and \<open>-\<close> wrap around as Go's
  \<open>++\<close> and \<open>--\<close> do, and the comparisons of the source are the signed ones
  (\<open><s\<close>, \<open>\<le>s\<close>).
\<close>

type_synonym go_int = "64 word"
type_synonym go_int64 = "64 word"

text \<open>
  The package's three sentinel errors. Go compares them by identity
  (\<open>err == types.ErrMustShutdown\<close>); \<open>EOF\<close> is \<open>io.EOF\<close> and \<open>OtherError\<close> stands
  for every other error value, named by its message.
\<close>

datatype error =
    ErrThresholdExceeded
  | ErrMustShutdown
  | ErrCounterLocked
  | EOF
  | OtherError string

text \<open>
  What a method does besides changing fields is recorded as a trace: a line handed to
  the logger (format string and the values of its \<open>%v\<close> arguments), or the call of
  another method of the receiver, recorded at the call site.
\<close>

datatype event =
    Info string "int list"
  | Debug string
  | Call string

text \<open>
  \<open>BaseSignCtrled\<close>, field by field. \<open>'l\<close> is the \<open>*SyncLogger\<close> handle and
  \<open>'i\<close> the value of interface type \<open>SignCtrled\<close> kept in \<open>impl\<close>.
\<close>

record ('l, 'i) BaseSignCtrled =
  Logger :: 'l
  counterLocked :: bool
  currentHeight :: go_int64
  missedInARow :: go_int
  threshold :: go_int
  rank :: go_int
  impl :: 'i

text \<open>
  \<open>NewBaseSignCtrled\<close>. A nil logger is replaced by
  \<open>NewSyncLogger(ioutil.Discard, "", 0)\<close>; \<open>SyncLogger\<close> is declared in
  another file of the package, so that logger is the parameter \<open>discard\<close>. \<open>missedInARow\<close> is not listed in the composite literal
  and so has Go's zero value.
\<close>

definition NewBaseSignCtrled ::
  "'l \<Rightarrow> 'l option \<Rightarrow> go_int \<Rightarrow> go_int \<Rightarrow> 'i \<Rightarrow> ('l, 'i) BaseSignCtrled" where
  "NewBaseSignCtrled discard logger thr rnk im =
     \<lparr> Logger = (case logger of None \<Rightarrow> discard | Some l \<Rightarrow> l),
       counterLocked = True,
       currentHeight = 1,
       missedInARow = 0,
       threshold = thr,
       rank = rnk,
       impl = im \<rparr>"

definition LockCounter ::
  "('l, 'i) BaseSignCtrled \<Rightarrow> event list \<times> ('l, 'i) BaseSignCtrled" where
  "LockCounter bsc =
     (if \<not> counterLocked bsc
      then ([Info ''Looking for first commitsig from validator after reconnect, stop counting missed blocks in a row...'' []],
            bsc\<lparr>counterLocked := True\<rparr>)
      else ([], bsc))"

definition UnlockCounter ::
  "('l, 'i) BaseSignCtrled \<Rightarrow> event list \<times> ('l, 'i) BaseSignCtrled" where
  "UnlockCounter bsc =
     (if counterLocked bsc
      then ([Info ''Found first commitsig from validator since fully synced, start counting missed blocks in a row...'' []],
            bsc\<lparr>counterLocked := False\<rparr>)
      else ([], bsc))"

definition GetCurrentHeight :: "('l, 'i) BaseSignCtrled \<Rightarrow> go_int64" where
  "GetCurrentHeight bsc = currentHeight bsc"

definition SetCurrentHeight ::
  "go_int64 \<Rightarrow> ('l, 'i) BaseSignCtrled \<Rightarrow> ('l, 'i) BaseSignCtrled" where
  "SetCurrentHeight height bsc = bsc\<lparr>currentHeight := height\<rparr>"

definition GetThreshold :: "('l, 'i) BaseSignCtrled \<Rightarrow> go_int" where
  "GetThreshold bsc = threshold bsc"

definition GetMissedInARow :: "('l, 'i) BaseSignCtrled \<Rightarrow> go_int" where
  "GetMissedInARow bsc = missedInARow bsc"

definition GetRank :: "('l, 'i) BaseSignCtrled \<Rightarrow> go_int" where
  "GetRank bsc = rank bsc"

definition SetRank ::
  "go_int \<Rightarrow> ('l, 'i) BaseSignCtrled \<Rightarrow> ('l, 'i) BaseSignCtrled" where
  "SetRank r bsc = bsc\<lparr>rank := r\<rparr>"

text \<open>
  The two hooks of the base type have empty bodies. A call \<open>bsc.OnPromote()\<close> with
  \<open>bsc\<close> of type \<open>*BaseSignCtrled\<close> is bound statically to these, whatever
  \<open>impl\<close> holds.
\<close>

definition OnMissedTooMany ::
  "('l, 'i) BaseSignCtrled \<Rightarrow> event list \<times> ('l, 'i) BaseSignCtrled" where
  "OnMissedTooMany bsc = ([], bsc)"

definition OnPromote ::
  "('l, 'i) BaseSignCtrled \<Rightarrow> event list \<times> ('l, 'i) BaseSignCtrled" where
  "OnPromote bsc = ([], bsc)"

definition Reset ::
  "('l, 'i) BaseSignCtrled \<Rightarrow> event list \<times> ('l, 'i) BaseSignCtrled" where
  "Reset bsc =
     (if 0 <s missedInARow bsc
      then ([Debug ''Reset counter for missed blocks in a row''], bsc\<lparr>missedInARow := 0\<rparr>)
      else ([], bsc))"

text \<open>
  \<open>Promote\<close>: the guard on rank 1 first, then the log line, \<open>rank--\<close>, \<open>Reset\<close>
  and \<open>OnPromote\<close> in the order of the source. The result is the returned error
  (\<open>None\<close> for nil), the trace and the receiver afterwards.
\<close>

definition Promote ::
  "('l, 'i) BaseSignCtrled \<Rightarrow> error option \<times> event list \<times> ('l, 'i) BaseSignCtrled" where
  "Promote bsc =
     (if rank bsc = 1 then (Some ErrMustShutdown, [], bsc)
      else
        let ev0 = [Info ''Promote validator (%v -> %v)'' [sint (rank bsc), sint (rank bsc - 1)]];
            bsc1 = bsc\<lparr>rank := rank bsc - 1\<rparr>;
            (ev1, bsc2) = Reset bsc1;
            (ev2, bsc3) = OnPromote bsc2
        in (None, ev0 @ Call ''Reset'' # ev1 @ Call ''OnPromote'' # ev2, bsc3))"

text \<open>
  \<open>Missed\<close>. The increment comes before the comparison with the threshold, and a
  counter past the threshold takes neither branch: the method then returns nil.
\<close>

definition Missed ::
  "('l, 'i) BaseSignCtrled \<Rightarrow> error option \<times> event list \<times> ('l, 'i) BaseSignCtrled" where
  "Missed bsc =
     (if counterLocked bsc then (Some ErrCounterLocked, [], bsc)
      else
        let bsc1 = bsc\<lparr>missedInARow := missedInARow bsc + 1\<rparr> in
        if missedInARow bsc1 <s threshold bsc1
        then (None,
              [Info ''Missed a block (%v/%v)'' [sint (missedInARow bsc1), sint (threshold bsc1)]],
              bsc1)
        else if missedInARow bsc1 = threshold bsc1
        then
          let ev0 = [Info ''Missed too many blocks in a row (%v/%v)''
                       [sint (missedInARow bsc1), sint (threshold bsc1)]];
              (ev1, bsc2) = OnMissedTooMany bsc1;
              (err, ev2, bsc3) = Promote bsc2;
              evs = ev0 @ Call ''OnMissedTooMany'' # ev1 @ Call ''Promote'' # ev2
          in (case err of
                Some e \<Rightarrow> (Some e, evs, bsc3)
              | None \<Rightarrow> (Some ErrThresholdExceeded, evs,
                         bsc3\<lparr>currentHeight := currentHeight bsc3 + 1\<rparr>))
        else (None, [], bsc1))"

text \<open>The three components of a method's result.\<close>

definition err_of :: "error option \<times> event list \<times> 's \<Rightarrow> error option" where
  "err_of r = fst r"

definition trace_of :: "error option \<times> event list \<times> 's \<Rightarrow> event list" where
  "trace_of r = fst (snd r)"

definition state_of :: "error option \<times> event list \<times> 's \<Rightarrow> 's" where
  "state_of r = snd (snd r)"

subsection \<open>Sequences of calls\<close>

text \<open>The receiver after \<open>n\<close> consecutive calls of \<open>Missed\<close>.\<close>

primrec Missed_times :: "nat \<Rightarrow> ('l, 'i) BaseSignCtrled \<Rightarrow> ('l, 'i) BaseSignCtrled" where
  "Missed_times 0 bsc = bsc"
| "Missed_times (Suc n) bsc = state_of (Missed (Missed_times n bsc))"

text \<open>How often a trace records a call of \<open>Promote\<close>.\<close>

definition Promote_calls :: "event list \<Rightarrow> nat" where
  "Promote_calls evs = length (filter (\<lambda>e. e = Call ''Promote'') evs)"

text \<open>
  The mutating methods a caller of the package can invoke on a \<open>BaseSignCtrled\<close>,
  as values, and the receiver after a list of such calls, made in order.
\<close>

datatype op =
    OpLockCounter
  | OpUnlockCounter
  | OpMissed
  | OpReset
  | OpPromote
  | OpSetCurrentHeight go_int64
  | OpSetRank go_int

fun apply_op ::
  "op \<Rightarrow> ('l, 'i) BaseSignCtrled \<Rightarrow> error option \<times> event list \<times> ('l, 'i) BaseSignCtrled" where
  "apply_op OpLockCounter bsc = (None, LockCounter bsc)"
| "apply_op OpUnlockCounter bsc = (None, UnlockCounter bsc)"
| "apply_op OpMissed bsc = Missed bsc"
| "apply_op OpReset bsc = (None, Reset bsc)"
| "apply_op OpPromote bsc = Promote bsc"
| "apply_op (OpSetCurrentHeight h) bsc = (None, [], SetCurrentHeight h bsc)"
| "apply_op (OpSetRank r) bsc = (None, [], SetRank r bsc)"

fun exec_ops :: "op list \<Rightarrow> ('l, 'i) BaseSignCtrled \<Rightarrow> ('l, 'i) BaseSignCtrled" where
  "exec_ops [] bsc = bsc"
| "exec_ops (x # xs) bsc = exec_ops xs (state_of (apply_op x bsc))"

text \<open>
  \<open>until_shutdown ops bsc\<close>: in the run of \<open>ops\<close> from \<open>bsc\<close>, a call of
  \<open>Missed\<close> that returns \<open>ErrMustShutdown\<close> is the last call made, if there is one.
\<close>

fun until_shutdown :: "op list \<Rightarrow> ('l, 'i) BaseSignCtrled \<Rightarrow> bool" where
  "until_shutdown [] bsc = True"
| "until_shutdown (x # xs) bsc =
     ((if x = OpMissed \<and> err_of (apply_op x bsc) = Some ErrMustShutdown then xs = [] else True)
      \<and> until_shutdown xs (state_of (apply_op x bsc)))"

fun is_SetRank :: "op \<Rightarrow> bool" where
  "is_SetRank (OpSetRank r) = True"
| "is_SetRank x = False"

text \<open>States of the scenarios of the specification, built through the constructor.\<close>

definition standby_3_3 :: "(unit, unit) BaseSignCtrled" where
  "standby_3_3 = snd (UnlockCounter (SetCurrentHeight 10 (NewBaseSignCtrled () None 3 3 ())))"

definition fresh_2_1 :: "(unit, unit) BaseSignCtrled" where
  "fresh_2_1 = NewBaseSignCtrled () None 2 1 ()"

definition fresh_2_2 :: "(unit, unit) BaseSignCtrled" where
  "fresh_2_2 = NewBaseSignCtrled () None 2 2 ()"


section \<open>The message loop of \<open>privval/sc_file.go\<close>\<close>

text \<open>
  \<open>SCFilePV\<close> embeds \<open>BaseSignCtrled\<close> and owns the connection. The fields that
  \<open>run\<close> never reads (\<open>BaseService\<close>, \<open>Config\<close>, \<open>TMFilePV\<close>, \<open>TermCh\<close>)
  live in the extension of the record, so the functions below are stated on the record
  scheme; what goes to \<open>pv.Logger\<close> is in the trace.
\<close>

record ('l, 'i, 'c) SCFilePV =
  BaseSignCtrled :: "('l, 'i) BaseSignCtrled"
  CurrentHeight :: go_int64
  SecretConn :: 'c

text \<open>
  The trace of the loop: a line printed with \<open>pv.Logger.Printf\<close> (format and the
  error it formats), a message handed to \<open>HandleRequest\<close>, a response handed to
  \<open>w.WriteMsg\<close>, the closing of the delimited reader and of the writer, and
  \<open>pv.Stop()\<close>.
\<close>

datatype ('m, 'r) run_event =
    Printf string "error list"
  | Dispatch 'm
  | Write 'r
  | CloseReader
  | CloseWriter
  | Stop

datatype flow = Continue | Return

text \<open>
  One pass through the body of the \<open>for\<close> loop of \<open>run\<close>. What the body
  calls in other files and packages is taken as parameters:
  \<^item> \<open>ReadMsg\<close>, the delimited reader on the connection: it yields the content of
    \<open>msg\<close> after the call (the zero message, or what was decoded before a failure)
    and the error;
  \<^item> \<open>HandleRequest\<close>, which gets the message and \<open>pv\<close> and yields the response
    and an error;
  \<^item> \<open>WriteMsg\<close>, the delimited writer on the connection.
  Only the branch for \<open>io.EOF\<close> has a \<open>continue\<close>: after any other read error the
  line is printed and control goes on to \<open>HandleRequest\<close>.
\<close>

definition run_iter ::
  "('c \<Rightarrow> ('m \<times> error option) \<times> 'c) \<Rightarrow>
   ('r \<Rightarrow> 'c \<Rightarrow> error option \<times> 'c) \<Rightarrow>
   ('m \<Rightarrow> ('l, 'i, 'c, 'z) SCFilePV_scheme \<Rightarrow> ('r \<times> error option) \<times> ('l, 'i, 'c, 'z) SCFilePV_scheme) \<Rightarrow>
   ('l, 'i, 'c, 'z) SCFilePV_scheme \<Rightarrow>
   flow \<times> ('m, 'r) run_event list \<times> ('l, 'i, 'c, 'z) SCFilePV_scheme" where
  "run_iter ReadMsg WriteMsg HandleRequest pv =
     (let ((msg, rerr), c1) = ReadMsg (SecretConn pv);
          pv1 = pv\<lparr>SecretConn := c1\<rparr>
      in if rerr = Some EOF then (Continue, [], pv1)
         else
           let ev0 = (case rerr of
                        None \<Rightarrow> []
                      | Some e \<Rightarrow> [Printf ''[ERR] signctrl: couldn't read message: %v\<newline>'' [e]]);
               ((resp, err), pv2) = HandleRequest msg pv1;
               (werr, c2) = WriteMsg resp (SecretConn pv2);
               pv3 = pv2\<lparr>SecretConn := c2\<rparr>;
               ev1 = (case werr of
                        None \<Rightarrow> []
                      | Some e \<Rightarrow> [Printf ''[ERR] signctrl: couldn't write message: %v\<newline>'' [e]])
           in case err of
                None \<Rightarrow> (Continue, ev0 @ Dispatch msg # Write resp # ev1, pv3)
              | Some e \<Rightarrow>
                  let ev2 = [Printf ''[ERR] signctrl: couldn't handle request: %v\<newline>'' [e]]
                  in if e = ErrMustShutdown
                     then (Return,
                           ev0 @ Dispatch msg # Write resp # ev1 @ ev2 @
                             [Printf ''[DEBUG] signctrl: Terminating run() goroutine'' [],
                              CloseReader, CloseWriter, Stop],
                           pv3)
                     else (Continue, ev0 @ Dispatch msg # Write resp # ev1 @ ev2, pv3))"

text \<open>
  \<open>run\<close>: the body, again and again, until a pass returns. The loop has no other
  exit, so \<open>run\<close> is a partial function: \<open>None\<close> is the loop that never ends.
  The first component of the argument collects the trace of the passes made so far.
\<close>

partial_function (option) run ::
  "('c \<Rightarrow> ('m \<times> error option) \<times> 'c) \<Rightarrow>
   ('r \<Rightarrow> 'c \<Rightarrow> error option \<times> 'c) \<Rightarrow>
   ('m \<Rightarrow> ('l, 'i, 'c, 'z) SCFilePV_scheme \<Rightarrow> ('r \<times> error option) \<times> ('l, 'i, 'c, 'z) SCFilePV_scheme) \<Rightarrow>
   ('m, 'r) run_event list \<times> ('l, 'i, 'c, 'z) SCFilePV_scheme \<Rightarrow>
   (('m, 'r) run_event list \<times> ('l, 'i, 'c, 'z) SCFilePV_scheme) option" where
  "run ReadMsg WriteMsg HandleRequest st =
     (case run_iter ReadMsg WriteMsg HandleRequest (snd st) of
        (Continue, evs, pv') \<Rightarrow> run ReadMsg WriteMsg HandleRequest (fst st @ evs, pv')
      | (Return, evs, pv') \<Rightarrow> Some (fst st @ evs, pv'))"

declare run.simps [code]

text \<open>
  The five entries that end the trace of a pass that returns.
\<close>

definition shutdown_tail :: "('m, 'r) run_event list" where
  "shutdown_tail =
     [Printf ''[ERR] signctrl: couldn't handle request: %v\<newline>'' [ErrMustShutdown],
      Printf ''[DEBUG] signctrl: Terminating run() goroutine'' [],
      CloseReader, CloseWriter, Stop]"

text \<open>
  An instance of the three parameters, to run the loop on concrete input. The connection
  is a script of read results, played back in order and followed by \<open>io.EOF\<close>; the
  writer never fails; \<open>miss_HandleRequest\<close> calls \<open>Missed\<close> on the embedded
  \<open>BaseSignCtrled\<close> for the message \<open>miss\<close> and reports its error, and
  \<open>stop_HandleRequest\<close> answers every message with \<open>ErrMustShutdown\<close>. They
  are examples only: the handler of the package is in another file.
\<close>

definition script_ReadMsg ::
  "(string \<times> error option) list \<Rightarrow> (string \<times> error option) \<times> (string \<times> error option) list" where
  "script_ReadMsg c = (case c of [] \<Rightarrow> (([], Some EOF), []) | x # xs \<Rightarrow> (x, xs))"

definition ok_WriteMsg :: "string \<Rightarrow> 'c \<Rightarrow> error option \<times> 'c" where
  "ok_WriteMsg resp c = (None, c)"

definition miss_HandleRequest ::
  "string \<Rightarrow> ('l, 'i, 'c, 'z) SCFilePV_scheme \<Rightarrow> (string \<times> error option) \<times> ('l, 'i, 'c, 'z) SCFilePV_scheme" where
  "miss_HandleRequest msg pv =
     (if msg = ''miss''
      then let (err, evs, bsc) = Missed (BaseSignCtrled pv)
           in ((''missed'', err), pv\<lparr>BaseSignCtrled := bsc\<rparr>)
      else ((''ok'', None), pv))"

definition stop_HandleRequest ::
  "string \<Rightarrow> ('l, 'i, 'c, 'z) SCFilePV_scheme \<Rightarrow> (string \<times> error option) \<times> ('l, 'i, 'c, 'z) SCFilePV_scheme" where
  "stop_HandleRequest msg pv = (([], Some ErrMustShutdown), pv)"

text \<open>
  Two states of an unlocked signer of rank 1 with threshold 2: one miss away from the
  threshold with a \<open>miss\<close> message waiting, and with a frame waiting that the
  reader rejects as too large, leaving \<open>msg\<close> at its zero value.
\<close>

definition last_miss_pv :: "(unit, unit, (string \<times> error option) list) SCFilePV" where
  "last_miss_pv =
     \<lparr> BaseSignCtrled = exec_ops [OpUnlockCounter, OpMissed] fresh_2_1,
       CurrentHeight = 1,
       SecretConn = [(''miss'', None)] \<rparr>"

definition oversized_pv :: "(unit, unit, (string \<times> error option) list) SCFilePV" where
  "oversized_pv =
     \<lparr> BaseSignCtrled = exec_ops [OpUnlockCounter] fresh_2_1,
       CurrentHeight = 1,
       SecretConn = [([], Some (OtherError ''message exceeds max size''))] \<rparr>"

section \<open>Properties of the rank counter\<close>

subsection \<open>Signed arithmetic without wrap-around\<close>

lemma sint_succ_64:
  fixes x y :: "64 word"
  assumes "x <s y"
  shows "sint (x + 1) = sint x + 1"
proof -
  have "sint x < sint y" using assms by (simp add: word_sless_alt)
  moreover have "sint y < 2 ^ 63" using sint_lt [of y] by simp
  moreover have "- (2 ^ 63) \<le> sint x" using sint_ge [of x] by simp
  ultimately have "signed_take_bit 63 (sint x + 1) = sint x + 1"
    by (intro signed_take_bit_int_eq_self) auto
  then show ?thesis by (simp add: sint_word_ariths)
qed

lemma sint_pred_64:
  fixes x y :: "64 word"
  assumes "y <s x"
  shows "sint (x - 1) = sint x - 1"
proof -
  have "sint y < sint x" using assms by (simp add: word_sless_alt)
  moreover have "sint x < 2 ^ 63" using sint_lt [of x] by simp
  moreover have "- (2 ^ 63) \<le> sint y" using sint_ge [of y] by simp
  ultimately have "signed_take_bit 63 (sint x - 1) = sint x - 1"
    by (intro signed_take_bit_int_eq_self) auto
  then show ?thesis by (simp add: sint_word_ariths)
qed

lemma sint_of_nat_64:
  assumes "int n \<le> sint (t :: 64 word)"
  shows "sint (word_of_nat n :: 64 word) = int n"
proof -
  have "int n < 2 ^ 63" using assms sint_lt [of t] by simp
  then have "signed_take_bit 63 (int n) = int n"
    by (intro signed_take_bit_int_eq_self) auto
  then show ?thesis by (simp add: signed_of_nat)
qed

subsection \<open>The branches of \<open>Reset\<close>, \<open>Promote\<close> and \<open>Missed\<close>\<close>

lemma Missed_below:
  "\<not> counterLocked bsc \<Longrightarrow> missedInARow bsc + 1 <s threshold bsc \<Longrightarrow>
   Missed bsc = (None, [Info ''Missed a block (%v/%v)'' [sint (missedInARow bsc + 1), sint (threshold bsc)]],
                 bsc\<lparr>missedInARow := missedInARow bsc + 1\<rparr>)"
  by (simp add: Missed_def Let_def)

lemma Reset_state: "snd (Reset bsc) = (if 0 <s missedInARow bsc then bsc\<lparr>missedInARow := 0\<rparr> else bsc)"
  by (simp add: Reset_def)

lemma Reset_no_Call: "Call f \<notin> set (fst (Reset bsc))"
  by (simp add: Reset_def)

lemma Promote_rank1: "rank bsc = 1 \<Longrightarrow> Promote bsc = (Some ErrMustShutdown, [], bsc)"
  by (simp add: Promote_def)

lemma Promote_ok:
  "rank bsc \<noteq> 1 \<Longrightarrow> Promote bsc =
    (None, Info ''Promote validator (%v -> %v)'' [sint (rank bsc), sint (rank bsc - 1)]
       # Call ''Reset'' # fst (Reset (bsc\<lparr>rank := rank bsc - 1\<rparr>)) @ [Call ''OnPromote''],
     snd (Reset (bsc\<lparr>rank := rank bsc - 1\<rparr>)))"
  by (simp add: Promote_def Let_def OnPromote_def split: prod.splits)

lemma Missed_shutdown:
  "\<not> counterLocked bsc \<Longrightarrow> missedInARow bsc + 1 = threshold bsc \<Longrightarrow> rank bsc = 1 \<Longrightarrow>
   Missed bsc =
     (Some ErrMustShutdown,
      [Info ''Missed too many blocks in a row (%v/%v)'' [sint (threshold bsc), sint (threshold bsc)],
       Call ''OnMissedTooMany'', Call ''Promote''],
      bsc\<lparr>missedInARow := missedInARow bsc + 1\<rparr>)"
  by (simp add: Missed_def Let_def OnMissedTooMany_def Promote_rank1)

lemma Missed_promoted:
  "\<not> counterLocked bsc \<Longrightarrow> missedInARow bsc + 1 = threshold bsc \<Longrightarrow> rank bsc \<noteq> 1 \<Longrightarrow>
   Missed bsc =
     (Some ErrThresholdExceeded,
      Info ''Missed too many blocks in a row (%v/%v)'' [sint (threshold bsc), sint (threshold bsc)]
       # Call ''OnMissedTooMany'' # Call ''Promote''
       # Info ''Promote validator (%v -> %v)'' [sint (rank bsc), sint (rank bsc - 1)]
       # Call ''Reset''
       # fst (Reset (bsc\<lparr>missedInARow := threshold bsc, rank := rank bsc - 1\<rparr>)) @ [Call ''OnPromote''],
      bsc\<lparr>missedInARow := (if 0 <s threshold bsc then 0 else threshold bsc),
          rank := rank bsc - 1,
          currentHeight := currentHeight bsc + 1\<rparr>)"
  by (simp add: Missed_def Let_def OnMissedTooMany_def Promote_ok Reset_state)

lemma Missed_above:
  "\<not> counterLocked bsc \<Longrightarrow> \<not> missedInARow bsc + 1 <s threshold bsc \<Longrightarrow> missedInARow bsc + 1 \<noteq> threshold bsc \<Longrightarrow>
   Missed bsc = (None, [], bsc\<lparr>missedInARow := missedInARow bsc + 1\<rparr>)"
  by (simp add: Missed_def Let_def)

lemma Missed_times_below:
  assumes "\<not> counterLocked bsc" "missedInARow bsc = 0" "int j < sint (threshold bsc)"
  shows "Missed_times j bsc = bsc\<lparr>missedInARow := word_of_nat j\<rparr>"
  using assms(3)
proof (induction j)
  case 0
  then show ?case using assms(2) by simp
next
  case (Suc j)
  then have IH: "Missed_times j bsc = bsc\<lparr>missedInARow := word_of_nat j\<rparr>" by simp
  have "sint (word_of_nat (Suc j) :: 64 word) = int (Suc j)"
    using Suc.prems by (intro sint_of_nat_64 [of _ "threshold bsc"]) simp
  then have "(word_of_nat j + 1 :: 64 word) <s threshold bsc"
    using Suc.prems by (simp add: word_sless_alt add.commute)
  then show ?case
    using assms(1) by (simp add: IH state_of_def Missed_below add.commute)
qed

lemma word_of_nat_eq_64:
  assumes "int n = sint (t :: 64 word)"
  shows "word_of_nat n = t"
proof -
  have "word_of_int (sint t) = t" by simp
  then show ?thesis using assms by (metis of_int_of_nat_eq)
qed

lemma state_of_simp: "state_of (e, evs, s) = s" by (simp add: state_of_def)
lemma err_of_simp: "err_of (e, evs, s) = e" by (simp add: err_of_def)
lemma trace_of_simp: "trace_of (e, evs, s) = evs" by (simp add: trace_of_def)

lemma Missed_locked: "counterLocked bsc \<Longrightarrow> Missed bsc = (Some ErrCounterLocked, [], bsc)"
  by (simp add: Missed_def)

lemma Promote_state:
  "state_of (Promote bsc) =
     (if rank bsc = 1 then bsc
      else if 0 <s missedInARow bsc then bsc\<lparr>missedInARow := 0, rank := rank bsc - 1\<rparr>
      else bsc\<lparr>rank := rank bsc - 1\<rparr>)"
  by (simp add: Promote_rank1 Promote_ok Reset_state state_of_simp)

lemma Promote_err: "err_of (Promote bsc) = (if rank bsc = 1 then Some ErrMustShutdown else None)"
  by (simp add: Promote_rank1 Promote_ok err_of_simp)

lemma Missed_cases:
  assumes "\<not> counterLocked bsc"
  obtains
    (below) "missedInARow bsc + 1 <s threshold bsc"
  | (shutdown) "missedInARow bsc + 1 = threshold bsc" "rank bsc = 1"
  | (promoted) "missedInARow bsc + 1 = threshold bsc" "rank bsc \<noteq> 1"
  | (above) "\<not> missedInARow bsc + 1 <s threshold bsc" "missedInARow bsc + 1 \<noteq> threshold bsc"
  by blast

lemma Missed_threshold: "threshold (state_of (Missed bsc)) = threshold bsc"
proof (cases "counterLocked bsc")
  case True
  then show ?thesis by (simp add: Missed_locked state_of_simp)
next
  case False
  from False show ?thesis
    by (cases bsc rule: Missed_cases)
       (simp_all add: False Missed_below Missed_shutdown Missed_promoted Missed_above state_of_simp)
qed

lemma apply_op_threshold: "threshold (state_of (apply_op x bsc)) = threshold bsc"
  by (cases x)
     (simp_all add: state_of_simp Missed_threshold LockCounter_def UnlockCounter_def Reset_def
        Promote_state SetCurrentHeight_def SetRank_def)

lemma exec_ops_threshold: "threshold (exec_ops ops bsc) = threshold bsc"
  by (induction ops arbitrary: bsc) (simp_all add: apply_op_threshold)

lemma Missed_counter:
  assumes "0 \<le>s missedInARow bsc" and "missedInARow bsc <s threshold bsc"
  shows "if err_of (Missed bsc) = Some ErrMustShutdown
         then missedInARow (state_of (Missed bsc)) = threshold bsc
         else 0 \<le>s missedInARow (state_of (Missed bsc))
            \<and> missedInARow (state_of (Missed bsc)) <s threshold bsc"
proof (cases "counterLocked bsc")
  case True
  then show ?thesis using assms by (simp add: Missed_locked state_of_simp err_of_simp)
next
  case False
  have suc: "sint (missedInARow bsc + 1) = sint (missedInARow bsc) + 1"
    using assms(2) by (rule sint_succ_64)
  from False show ?thesis
  proof (cases bsc rule: Missed_cases)
    case below
    then show ?thesis
      using False assms suc by (simp add: Missed_below state_of_simp err_of_simp word_sle_eq)
  next
    case shutdown
    then show ?thesis
      using False by (simp add: Missed_shutdown state_of_simp err_of_simp)
  next
    case promoted
    have "0 <s threshold bsc"
      using assms suc promoted(1) [symmetric] by (simp add: word_sle_eq word_sless_alt)
    then show ?thesis
      using False promoted by (simp add: Missed_promoted state_of_simp err_of_simp)
  next
    case above
    then have False
      using assms suc by (auto simp: word_sless_alt word_sle_eq word_eq_iff_signed [where ?'a = int])
    then show ?thesis ..
  qed
qed

lemma apply_op_counter:
  assumes "0 \<le>s missedInARow bsc" and "missedInARow bsc <s threshold bsc"
  shows "if x = OpMissed \<and> err_of (apply_op x bsc) = Some ErrMustShutdown
         then missedInARow (state_of (apply_op x bsc)) = threshold bsc
         else 0 \<le>s missedInARow (state_of (apply_op x bsc))
            \<and> missedInARow (state_of (apply_op x bsc)) <s threshold bsc"
proof (cases x)
  case OpMissed
  then show ?thesis using Missed_counter [OF assms] by simp
next
  case OpPromote
  have "0 <s threshold bsc"
    using assms by (simp add: word_sle_eq word_sless_alt)
  then show ?thesis
    using assms OpPromote by (simp add: Promote_state)
next
  case OpReset
  have "0 <s threshold bsc"
    using assms by (simp add: word_sle_eq word_sless_alt)
  then show ?thesis
    using assms OpReset by (simp add: Reset_def state_of_simp)
qed (use assms in \<open>simp_all add: state_of_simp LockCounter_def UnlockCounter_def
        SetCurrentHeight_def SetRank_def\<close>)

lemma exec_ops_counter:
  assumes "0 \<le>s missedInARow bsc" and "missedInARow bsc <s threshold bsc"
    and "until_shutdown ops bsc"
  shows "0 \<le>s missedInARow (exec_ops ops bsc)
       \<and> missedInARow (exec_ops ops bsc) \<le>s threshold (exec_ops ops bsc)"
  using assms
proof (induction ops arbitrary: bsc)
  case Nil
  then show ?case by (simp add: word_sle_eq word_sless_alt)
next
  case (Cons x xs)
  let ?s = "state_of (apply_op x bsc)"
  have thr: "threshold ?s = threshold bsc" by (rule apply_op_threshold)
  show ?case
  proof (cases "x = OpMissed \<and> err_of (apply_op x bsc) = Some ErrMustShutdown")
    case True
    then have "xs = []" using Cons.prems(3) by (simp split: if_splits)
    moreover have "missedInARow ?s = threshold bsc"
      using apply_op_counter [OF Cons.prems(1,2), of x] True by (auto split: if_splits)
    moreover have "0 \<le>s threshold bsc"
      using Cons.prems(1,2) by (simp add: word_sle_eq word_sless_alt)
    ultimately show ?thesis by (simp add: thr)
  next
    case False
    then have "0 \<le>s missedInARow ?s" and "missedInARow ?s <s threshold ?s"
      using apply_op_counter [OF Cons.prems(1,2), of x] by (auto simp: thr)
    moreover have "until_shutdown xs ?s" using Cons.prems(3) by simp
    ultimately show ?thesis using Cons.IH by simp
  qed
qed

lemma Missed_unlocked_err: "\<not> counterLocked bsc \<Longrightarrow> err_of (Missed bsc) \<noteq> Some ErrCounterLocked"
  by (cases bsc rule: Missed_cases)
     (simp_all add: Missed_below Missed_shutdown Missed_promoted Missed_above err_of_simp)

lemma Missed_times_locked: "counterLocked bsc \<Longrightarrow> Missed_times n bsc = bsc"
  by (induction n) (simp_all add: Missed_locked state_of_simp)

lemma Missed_unlocked_result:
  assumes "\<not> counterLocked bsc"
  shows "Missed bsc =
     (if missedInARow bsc + 1 <s threshold bsc
      then (None,
            [Info ''Missed a block (%v/%v)'' [sint (missedInARow bsc + 1), sint (threshold bsc)]],
            bsc\<lparr>missedInARow := missedInARow bsc + 1\<rparr>)
      else if missedInARow bsc + 1 = threshold bsc
      then (if rank bsc = 1
            then (Some ErrMustShutdown,
                  [Info ''Missed too many blocks in a row (%v/%v)''
                     [sint (threshold bsc), sint (threshold bsc)],
                   Call ''OnMissedTooMany'', Call ''Promote''],
                  bsc\<lparr>missedInARow := threshold bsc\<rparr>)
            else (Some ErrThresholdExceeded,
                  [Info ''Missed too many blocks in a row (%v/%v)''
                     [sint (threshold bsc), sint (threshold bsc)],
                   Call ''OnMissedTooMany'', Call ''Promote'',
                   Info ''Promote validator (%v -> %v)'' [sint (rank bsc), sint (rank bsc - 1)],
                   Call ''Reset'']
                  @ (if 0 <s threshold bsc
                     then [Debug ''Reset counter for missed blocks in a row''] else [])
                  @ [Call ''OnPromote''],
                  bsc\<lparr>missedInARow := (if 0 <s threshold bsc then 0 else threshold bsc),
                      rank := rank bsc - 1,
                      currentHeight := currentHeight bsc + 1\<rparr>))
      else (None, [], bsc\<lparr>missedInARow := missedInARow bsc + 1\<rparr>))"
  using assms
  by (cases bsc rule: Missed_cases)
     (simp_all add: assms Missed_below Missed_shutdown Missed_promoted Missed_above Reset_def)

lemma rank_pred:
  assumes "1 \<le>s rank bsc" and "rank bsc \<noteq> 1"
  shows "1 \<le>s rank bsc - 1 \<and> rank bsc - 1 \<le>s rank bsc"
proof -
  have lt: "1 <s rank bsc"
    using assms by (simp add: word_sless_eq)
  then have "sint (rank bsc - 1) = sint (rank bsc) - 1"
    by (rule sint_pred_64)
  moreover have "1 < sint (rank bsc)"
    using lt by (simp add: word_sless_alt)
  ultimately show ?thesis by (simp add: word_sle_eq)
qed

lemma Missed_rank:
  assumes "1 \<le>s rank bsc"
  shows "1 \<le>s rank (state_of (Missed bsc)) \<and> rank (state_of (Missed bsc)) \<le>s rank bsc"
proof (cases "counterLocked bsc")
  case True
  then show ?thesis using assms by (simp add: Missed_locked state_of_simp)
next
  case False
  from False show ?thesis
    by (cases bsc rule: Missed_cases)
       (use False assms rank_pred [OF assms] in
         \<open>simp_all add: Missed_below Missed_shutdown Missed_promoted Missed_above state_of_simp\<close>)
qed

lemma apply_op_rank:
  assumes "1 \<le>s rank bsc" and "\<not> is_SetRank x"
  shows "1 \<le>s rank (state_of (apply_op x bsc)) \<and> rank (state_of (apply_op x bsc)) \<le>s rank bsc"
proof (cases x)
  case OpMissed
  then show ?thesis using Missed_rank [OF assms(1)] by simp
next
  case OpPromote
  then show ?thesis using assms(1) rank_pred [OF assms(1)] by (simp add: Promote_state)
next
  case (OpSetRank r)
  then show ?thesis using assms(2) by simp
qed (use assms in \<open>simp_all add: state_of_simp LockCounter_def UnlockCounter_def Reset_def
        SetCurrentHeight_def\<close>)

lemma exec_ops_rank:
  assumes "1 \<le>s rank bsc" and "\<forall>x \<in> set ops. \<not> is_SetRank x"
  shows "1 \<le>s rank (exec_ops ops bsc) \<and> rank (exec_ops ops bsc) \<le>s rank bsc"
  using assms
proof (induction ops arbitrary: bsc)
  case Nil
  then show ?case by simp
next
  case (Cons x xs)
  let ?s = "state_of (apply_op x bsc)"
  have "1 \<le>s rank ?s" and le: "rank ?s \<le>s rank bsc"
    using apply_op_rank [of bsc x] Cons.prems by simp_all
  then have "1 \<le>s rank (exec_ops xs ?s)" and "rank (exec_ops xs ?s) \<le>s rank ?s"
    using Cons.IH [of ?s] Cons.prems(2) by simp_all
  then show ?case using le by (simp add: word_sle_eq)
qed

lemma exec_ops_append: "exec_ops (xs @ ys) bsc = exec_ops ys (exec_ops xs bsc)"
  by (induction xs arbitrary: bsc) simp_all

subsection \<open>The stored \<open>impl\<close> is carried along\<close>

lemma Reset_impl:
  "Reset (bsc\<lparr>impl := i\<rparr>) = (fst (Reset bsc), (snd (Reset bsc))\<lparr>impl := i\<rparr>)"
  by (simp add: Reset_def)

lemma Promote_impl:
  "Promote (bsc\<lparr>impl := i\<rparr>) =
     (err_of (Promote bsc), trace_of (Promote bsc), (state_of (Promote bsc))\<lparr>impl := i\<rparr>)"
  by (cases "rank bsc = 1")
     (simp_all add: Promote_rank1 Promote_ok Reset_def err_of_simp trace_of_simp state_of_simp)

lemma Missed_impl:
  "Missed (bsc\<lparr>impl := i\<rparr>) =
     (err_of (Missed bsc), trace_of (Missed bsc), (state_of (Missed bsc))\<lparr>impl := i\<rparr>)"
proof (cases "counterLocked bsc")
  case True
  then show ?thesis by (simp add: Missed_locked err_of_simp trace_of_simp state_of_simp)
next
  case False
  from False show ?thesis
    by (cases bsc rule: Missed_cases)
       (simp_all add: False Missed_below Missed_shutdown Missed_promoted Missed_above Reset_def
          err_of_simp trace_of_simp state_of_simp)
qed

lemma apply_op_impl:
  "apply_op x (bsc\<lparr>impl := i\<rparr>) =
     (err_of (apply_op x bsc), trace_of (apply_op x bsc), (state_of (apply_op x bsc))\<lparr>impl := i\<rparr>)"
  by (cases x)
     (simp_all add: Missed_impl Promote_impl Reset_impl LockCounter_def UnlockCounter_def
        SetCurrentHeight_def SetRank_def err_of_def trace_of_def state_of_def)

lemma exec_ops_impl: "exec_ops ops (bsc\<lparr>impl := i\<rparr>) = (exec_ops ops bsc)\<lparr>impl := i\<rparr>"
  by (induction ops arbitrary: bsc) (simp_all add: apply_op_impl state_of_simp)

subsection \<open>The scenario states, evaluated\<close>

lemma fresh_2_1_eq: "fresh_2_1 = \<lparr>Logger = (), counterLocked = True, currentHeight = 1,
      missedInARow = 0, threshold = 2, rank = 1, impl = ()\<rparr>"
  by (simp add: fresh_2_1_def NewBaseSignCtrled_def)

lemmas run_defs = Missed_def Promote_def Reset_def OnMissedTooMany_def OnPromote_def
  LockCounter_def UnlockCounter_def SetRank_def SetCurrentHeight_def
  state_of_def err_of_def trace_of_def word_sless_alt word_sle_eq

lemma fresh_2_2_eq: "fresh_2_2 = \<lparr>Logger = (), counterLocked = True, currentHeight = 1,
      missedInARow = 0, threshold = 2, rank = 2, impl = ()\<rparr>"
  by (simp add: fresh_2_2_def NewBaseSignCtrled_def)

lemma standby_3_3_eq: "standby_3_3 = \<lparr>Logger = (), counterLocked = False, currentHeight = 10,
      missedInARow = 0, threshold = 3, rank = 3, impl = ()\<rparr>"
  by (simp add: standby_3_3_def NewBaseSignCtrled_def SetCurrentHeight_def UnlockCounter_def)


subsection \<open>Reaching the threshold\<close>

text \<open>
  Claim C1. Take a receiver that is unlocked, has counted no miss and has a rank above
  1, and call \<open>Missed\<close> on it again and again. With \<open>Suc k\<close> equal to the
  threshold, none of the first \<open>k\<close> calls records a call of \<open>Promote\<close> in its
  trace, the call number \<open>Suc k\<close> records exactly one (and returns
  \<open>ErrThresholdExceeded\<close>), and right after that call \<open>missedInARow\<close> is 0 and
  the rank is the old rank minus 1, read as signed integers.
\<close>

theorem Missed_threshold_promotes_once:
  assumes "\<not> counterLocked bsc" and "missedInARow bsc = 0" and "1 <s rank bsc"
    and "int (Suc k) = sint (threshold bsc)"
  shows "(\<forall>j<k. Promote_calls (trace_of (Missed (Missed_times j bsc))) = 0)
       \<and> Promote_calls (trace_of (Missed (Missed_times k bsc))) = 1
       \<and> err_of (Missed (Missed_times k bsc)) = Some ErrThresholdExceeded
       \<and> missedInARow (Missed_times (Suc k) bsc) = 0
       \<and> sint (rank (Missed_times (Suc k) bsc)) = sint (rank bsc) - 1"
proof -
  have thr: "word_of_nat k + 1 = threshold bsc"
    using word_of_nat_eq_64 [OF assms(4)] by (simp add: add.commute)
  have pos: "0 <s threshold bsc"
    using assms(4) by (simp add: word_sless_alt)
  have r1: "rank bsc \<noteq> 1"
    using assms(3) by auto
  have early: "Promote_calls (trace_of (Missed (Missed_times j bsc))) = 0" if "j < k" for j
  proof -
    have *: "Missed_times j bsc = bsc\<lparr>missedInARow := word_of_nat j\<rparr>"
      using that assms(4) by (intro Missed_times_below assms) simp
    have "Missed_times (Suc j) bsc = bsc\<lparr>missedInARow := word_of_nat (Suc j)\<rparr>"
      using that assms(4) by (intro Missed_times_below assms) simp
    have "sint (word_of_nat (Suc j) :: 64 word) = int (Suc j)"
      using that assms(4) by (intro sint_of_nat_64 [of _ "threshold bsc"]) simp
    then have "(word_of_nat j + 1 :: 64 word) <s threshold bsc"
      using that assms(4) by (simp add: word_sless_alt add.commute)
    then show ?thesis
      using assms(1) by (simp add: * Missed_below trace_of_def Promote_calls_def)
  qed
  have at_k: "Missed_times k bsc = bsc\<lparr>missedInARow := word_of_nat k\<rparr>"
    using assms(4) by (intro Missed_times_below assms) simp
  have last: "Missed (Missed_times k bsc) =
      (Some ErrThresholdExceeded,
       Info ''Missed too many blocks in a row (%v/%v)'' [sint (threshold bsc), sint (threshold bsc)]
         # Call ''OnMissedTooMany'' # Call ''Promote''
         # Info ''Promote validator (%v -> %v)'' [sint (rank bsc), sint (rank bsc - 1)]
         # Call ''Reset''
         # fst (Reset (bsc\<lparr>missedInARow := threshold bsc, rank := rank bsc - 1\<rparr>)) @ [Call ''OnPromote''],
       bsc\<lparr>missedInARow := 0, rank := rank bsc - 1, currentHeight := currentHeight bsc + 1\<rparr>)"
    using assms(1) thr pos r1 by (simp add: at_k Missed_promoted)
  have once: "Promote_calls (trace_of (Missed (Missed_times k bsc))) = 1"
    by (simp add: last trace_of_def Promote_calls_def Reset_def)
  have "sint (rank bsc - 1) = sint (rank bsc) - 1"
    using assms(3) by (rule sint_pred_64)
  then show ?thesis
    using early once by (simp add: last err_of_def state_of_def)
qed

theorem Missed_threshold_promotes_once_witness:
  "Promote_calls (trace_of (Missed (Missed_times 0 standby_3_3))) = 0
   \<and> Promote_calls (trace_of (Missed (Missed_times 1 standby_3_3))) = 0
   \<and> Promote_calls (trace_of (Missed (Missed_times 2 standby_3_3))) = 1
   \<and> err_of (Missed (Missed_times 2 standby_3_3)) = Some ErrThresholdExceeded
   \<and> missedInARow (Missed_times 3 standby_3_3) = 0
   \<and> sint (rank (Missed_times 3 standby_3_3)) = 2"
proof -
  have s: "standby_3_3 = \<lparr>Logger = (), counterLocked = False, currentHeight = 10,
      missedInARow = 0, threshold = 3, rank = 3, impl = ()\<rparr>"
    by (simp add: standby_3_3_def NewBaseSignCtrled_def SetCurrentHeight_def UnlockCounter_def)
  have h1: "\<not> counterLocked standby_3_3" and h2: "missedInARow standby_3_3 = 0"
    and h3: "1 <s rank standby_3_3" and h4: "int (Suc 2) = sint (threshold standby_3_3)"
    by (simp_all add: s word_sless_alt)
  have r: "sint (rank standby_3_3) = 3" by (simp add: s)
  have n: "\<forall>j<2::nat. P j \<Longrightarrow> P 0 \<and> P 1" for P by simp
  from Missed_threshold_promotes_once [OF h1 h2 h3 h4] show ?thesis
    unfolding r by (auto simp: numeral_3_eq_3 dest: n)
qed

subsection \<open>The bounds of the counter\<close>

text \<open>
  Claim C2, as stated, fails: a fresh signer of rank 1 with threshold 2 is unlocked and
  misses twice, so that the second \<open>Missed\<close> returns \<open>ErrMustShutdown\<close> with
  the counter left at the threshold; a third \<open>Missed\<close> increments it to 3, takes
  neither branch and returns nil, and \<open>missedInARow\<close> is above \<open>threshold\<close>.
\<close>

theorem counter_exceeds_threshold_after_shutdown:
  "err_of (Missed (exec_ops [OpUnlockCounter, OpMissed] fresh_2_1)) = Some ErrMustShutdown
   \<and> threshold (exec_ops [OpUnlockCounter, OpMissed, OpMissed, OpMissed] fresh_2_1) <s
       missedInARow (exec_ops [OpUnlockCounter, OpMissed, OpMissed, OpMissed] fresh_2_1)"
  by (simp add: fresh_2_1_eq run_defs)

text \<open>
  Claim C2, amended. Start from a receiver with \<open>missedInARow = 0\<close> and a threshold
  of at least 1, and make any calls of \<open>LockCounter\<close>, \<open>UnlockCounter\<close>,
  \<open>Missed\<close>, \<open>Reset\<close>, \<open>Promote\<close> and the two setters, in which no call
  comes after a \<open>Missed\<close> that returned \<open>ErrMustShutdown\<close>. Then
  \<open>0 \<le> missedInARow \<le> threshold\<close> afterwards; this includes the state right after
  the \<open>Missed\<close> whose \<open>Promote\<close> failed at rank 1.
\<close>

theorem counter_bounded_until_shutdown:
  assumes "missedInARow bsc = 0" and "1 \<le>s threshold bsc" and "until_shutdown ops bsc"
  shows "0 \<le>s missedInARow (exec_ops ops bsc)
       \<and> missedInARow (exec_ops ops bsc) \<le>s threshold bsc"
proof -
  have "0 \<le>s missedInARow bsc" and "missedInARow bsc <s threshold bsc"
    using assms(1,2) by (simp_all add: word_sle_eq word_sless_alt)
  from exec_ops_counter [OF this assms(3)] show ?thesis
    by (simp add: exec_ops_threshold)
qed

theorem counter_bounded_until_shutdown_witness:
  "until_shutdown [OpUnlockCounter, OpMissed, OpMissed] fresh_2_1
   \<and> 0 \<le>s missedInARow (exec_ops [OpUnlockCounter, OpMissed, OpMissed] fresh_2_1)
   \<and> missedInARow (exec_ops [OpUnlockCounter, OpMissed, OpMissed] fresh_2_1) \<le>s threshold fresh_2_1"
proof -
  have h1: "missedInARow fresh_2_1 = 0" and h2: "1 \<le>s threshold fresh_2_1"
    by (simp_all add: fresh_2_1_eq word_sle_eq)
  have h3: "until_shutdown [OpUnlockCounter, OpMissed, OpMissed] fresh_2_1"
    by (simp add: fresh_2_1_eq run_defs)
  from counter_bounded_until_shutdown [OF h1 h2 h3] h3 show ?thesis by simp
qed

subsection \<open>Promotion at rank 1\<close>

text \<open>
  Claim C3. \<open>Promote\<close> on a receiver of rank 1 returns \<open>ErrMustShutdown\<close>, logs
  nothing and returns the receiver as it was. If \<open>Missed\<close> reaches the threshold and
  the \<open>Promote\<close> it calls returns an error, then the rank is 1, the error is
  \<open>ErrMustShutdown\<close>, \<open>Missed\<close> returns that same error and not
  \<open>ErrThresholdExceeded\<close>, and \<open>currentHeight\<close> is what it was: only the
  counter has changed.
\<close>

theorem Promote_at_rank_1_fails_unchanged:
  "(rank bsc = 1 \<longrightarrow> Promote bsc = (Some ErrMustShutdown, [], bsc))
   \<and> (\<not> counterLocked bsc \<and> missedInARow bsc + 1 = threshold bsc
        \<and> err_of (Promote (bsc\<lparr>missedInARow := missedInARow bsc + 1\<rparr>)) = Some e
      \<longrightarrow> rank bsc = 1 \<and> e = ErrMustShutdown
          \<and> err_of (Missed bsc) = Some ErrMustShutdown
          \<and> currentHeight (state_of (Missed bsc)) = currentHeight bsc
          \<and> state_of (Missed bsc) = bsc\<lparr>missedInARow := threshold bsc\<rparr>)"
proof (intro conjI impI)
  assume "rank bsc = 1"
  then show "Promote bsc = (Some ErrMustShutdown, [], bsc)" by (rule Promote_rank1)
next
  assume a: "\<not> counterLocked bsc \<and> missedInARow bsc + 1 = threshold bsc
        \<and> err_of (Promote (bsc\<lparr>missedInARow := missedInARow bsc + 1\<rparr>)) = Some e"
  then have r: "rank bsc = 1" and e: "e = ErrMustShutdown"
    by (auto simp: Promote_err split: if_splits)
  from a r have m: "Missed bsc = (Some ErrMustShutdown,
      [Info ''Missed too many blocks in a row (%v/%v)'' [sint (threshold bsc), sint (threshold bsc)],
       Call ''OnMissedTooMany'', Call ''Promote''],
      bsc\<lparr>missedInARow := missedInARow bsc + 1\<rparr>)"
    by (intro Missed_shutdown) simp_all
  show "rank bsc = 1" by (rule r)
  show "e = ErrMustShutdown" by (rule e)
  show "err_of (Missed bsc) = Some ErrMustShutdown" by (simp add: m err_of_simp)
  show "currentHeight (state_of (Missed bsc)) = currentHeight bsc" by (simp add: m state_of_simp)
  show "state_of (Missed bsc) = bsc\<lparr>missedInARow := threshold bsc\<rparr>"
    using a by (simp add: m state_of_simp)
qed

theorem Promote_at_rank_1_fails_unchanged_witness:
  "Promote (exec_ops [OpUnlockCounter, OpMissed] fresh_2_1)
     = (Some ErrMustShutdown, [], exec_ops [OpUnlockCounter, OpMissed] fresh_2_1)
   \<and> err_of (Missed (exec_ops [OpUnlockCounter, OpMissed] fresh_2_1)) = Some ErrMustShutdown
   \<and> currentHeight (state_of (Missed (exec_ops [OpUnlockCounter, OpMissed] fresh_2_1))) = 1"
proof -
  let ?s = "exec_ops [OpUnlockCounter, OpMissed] fresh_2_1"
  have s: "?s = \<lparr>Logger = (), counterLocked = False, currentHeight = 1,
       missedInARow = 1, threshold = 2, rank = 1, impl = ()\<rparr>"
    by (simp add: fresh_2_1_eq run_defs)
  have a: "rank ?s = 1"
    by (simp only: s BaseSignCtrled.simps)
  have b: "\<not> counterLocked ?s \<and> missedInARow ?s + 1 = threshold ?s
      \<and> err_of (Promote (?s\<lparr>missedInARow := missedInARow ?s + 1\<rparr>)) = Some ErrMustShutdown"
    unfolding s by (simp add: Promote_def err_of_def)
  have h: "currentHeight ?s = 1"
    by (simp only: s BaseSignCtrled.simps)
  note T = Promote_at_rank_1_fails_unchanged [of ?s ErrMustShutdown]
  from T a have "Promote ?s = (Some ErrMustShutdown, [], ?s)"
    by blast
  moreover from T b have "err_of (Missed ?s) = Some ErrMustShutdown"
    and "currentHeight (state_of (Missed ?s)) = currentHeight ?s"
    by blast+
  ultimately show ?thesis
    by (simp only: h simp_thms)
qed

subsection \<open>The skipped height\<close>




subsection \<open>The locked counter\<close>

text \<open>
  Claim C5. While \<open>counterLocked\<close> is set, \<open>Missed\<close> returns
  \<open>ErrCounterLocked\<close>, logs nothing and leaves the receiver as it was, and so does
  any number of calls in a row. The state built by \<open>NewBaseSignCtrled\<close> is locked
  and has \<open>currentHeight = 1\<close>. \<open>UnlockCounter\<close> changes nothing but the lock,
  and the next \<open>Missed\<close> is the unlocked one, which never returns
  \<open>ErrCounterLocked\<close>: it counts the miss, and then either reports progress and
  returns nil (counter below the threshold), or returns \<open>ErrMustShutdown\<close> with the
  counter at the threshold (threshold reached at rank 1), or promotes, skips one height
  and returns \<open>ErrThresholdExceeded\<close> (threshold reached at another rank), or
  returns nil without a log line (counter past the threshold). In particular, on a
  freshly built receiver with a threshold above 1, after any number of locked calls and
  one \<open>UnlockCounter\<close>, \<open>Missed\<close> returns nil, logs 1 of the threshold and
  leaves \<open>missedInARow = 1\<close>.
\<close>

theorem Missed_while_locked:
  "(counterLocked bsc \<longrightarrow>
      Missed bsc = (Some ErrCounterLocked, [], bsc)
      \<and> Missed_times n bsc = bsc
      \<and> err_of (Missed (Missed_times n bsc)) = Some ErrCounterLocked)
   \<and> counterLocked (NewBaseSignCtrled d l thr rnk im)
   \<and> currentHeight (NewBaseSignCtrled d l thr rnk im) = 1
   \<and> snd (UnlockCounter bsc) = bsc\<lparr>counterLocked := False\<rparr>
   \<and> Missed (snd (UnlockCounter bsc)) = Missed (bsc\<lparr>counterLocked := False\<rparr>)
   \<and> err_of (Missed (snd (UnlockCounter bsc))) \<noteq> Some ErrCounterLocked
   \<and> Missed (snd (UnlockCounter bsc)) =
       (if missedInARow bsc + 1 <s threshold bsc
        then (None,
              [Info ''Missed a block (%v/%v)'' [sint (missedInARow bsc + 1), sint (threshold bsc)]],
              bsc\<lparr>counterLocked := False, missedInARow := missedInARow bsc + 1\<rparr>)
        else if missedInARow bsc + 1 = threshold bsc
        then (if rank bsc = 1
              then (Some ErrMustShutdown,
                    [Info ''Missed too many blocks in a row (%v/%v)''
                       [sint (threshold bsc), sint (threshold bsc)],
                     Call ''OnMissedTooMany'', Call ''Promote''],
                    bsc\<lparr>counterLocked := False, missedInARow := threshold bsc\<rparr>)
              else (Some ErrThresholdExceeded,
                    [Info ''Missed too many blocks in a row (%v/%v)''
                       [sint (threshold bsc), sint (threshold bsc)],
                     Call ''OnMissedTooMany'', Call ''Promote'',
                     Info ''Promote validator (%v -> %v)'' [sint (rank bsc), sint (rank bsc - 1)],
                     Call ''Reset'']
                    @ (if 0 <s threshold bsc
                       then [Debug ''Reset counter for missed blocks in a row''] else [])
                    @ [Call ''OnPromote''],
                    bsc\<lparr>counterLocked := False,
                        missedInARow := (if 0 <s threshold bsc then 0 else threshold bsc),
                        rank := rank bsc - 1,
                        currentHeight := currentHeight bsc + 1\<rparr>))
        else (None, [], bsc\<lparr>counterLocked := False, missedInARow := missedInARow bsc + 1\<rparr>))
   \<and> (1 <s thr \<longrightarrow>
        Missed (snd (UnlockCounter (Missed_times n (NewBaseSignCtrled d l thr rnk im)))) =
          (None, [Info ''Missed a block (%v/%v)'' [1, sint thr]],
           (NewBaseSignCtrled d l thr rnk im)\<lparr>counterLocked := False, missedInARow := 1\<rparr>))"
proof -
  have u: "snd (UnlockCounter bsc) = bsc\<lparr>counterLocked := False\<rparr>"
    by (simp add: UnlockCounter_def)
  have e: "err_of (Missed (bsc\<lparr>counterLocked := False\<rparr>)) \<noteq> Some ErrCounterLocked"
    by (rule Missed_unlocked_err) simp
  have a: "counterLocked bsc \<longrightarrow>
      Missed bsc = (Some ErrCounterLocked, [], bsc)
      \<and> Missed_times n bsc = bsc
      \<and> err_of (Missed (Missed_times n bsc)) = Some ErrCounterLocked"
    by (simp add: Missed_locked Missed_times_locked err_of_simp)
  have b: "counterLocked (NewBaseSignCtrled d l thr rnk im)"
    and c: "currentHeight (NewBaseSignCtrled d l thr rnk im) = 1"
    by (simp_all add: NewBaseSignCtrled_def)
  have r: "Missed (bsc\<lparr>counterLocked := False\<rparr>) =
       (if missedInARow bsc + 1 <s threshold bsc
        then (None,
              [Info ''Missed a block (%v/%v)'' [sint (missedInARow bsc + 1), sint (threshold bsc)]],
              bsc\<lparr>counterLocked := False, missedInARow := missedInARow bsc + 1\<rparr>)
        else if missedInARow bsc + 1 = threshold bsc
        then (if rank bsc = 1
              then (Some ErrMustShutdown,
                    [Info ''Missed too many blocks in a row (%v/%v)''
                       [sint (threshold bsc), sint (threshold bsc)],
                     Call ''OnMissedTooMany'', Call ''Promote''],
                    bsc\<lparr>counterLocked := False, missedInARow := threshold bsc\<rparr>)
              else (Some ErrThresholdExceeded,
                    [Info ''Missed too many blocks in a row (%v/%v)''
                       [sint (threshold bsc), sint (threshold bsc)],
                     Call ''OnMissedTooMany'', Call ''Promote'',
                     Info ''Promote validator (%v -> %v)'' [sint (rank bsc), sint (rank bsc - 1)],
                     Call ''Reset'']
                    @ (if 0 <s threshold bsc
                       then [Debug ''Reset counter for missed blocks in a row''] else [])
                    @ [Call ''OnPromote''],
                    bsc\<lparr>counterLocked := False,
                        missedInARow := (if 0 <s threshold bsc then 0 else threshold bsc),
                        rank := rank bsc - 1,
                        currentHeight := currentHeight bsc + 1\<rparr>))
        else (None, [], bsc\<lparr>counterLocked := False, missedInARow := missedInARow bsc + 1\<rparr>))"
    by (subst Missed_unlocked_result) simp_all
  have f: "Missed (snd (UnlockCounter (Missed_times n (NewBaseSignCtrled d l thr rnk im)))) =
          (None, [Info ''Missed a block (%v/%v)'' [1, sint thr]],
           (NewBaseSignCtrled d l thr rnk im)\<lparr>counterLocked := False, missedInARow := 1\<rparr>)"
    if "1 <s thr"
  proof -
    have "Missed_times n (NewBaseSignCtrled d l thr rnk im) = NewBaseSignCtrled d l thr rnk im"
      using b by (rule Missed_times_locked)
    then show ?thesis
      using that by (simp add: UnlockCounter_def NewBaseSignCtrled_def Missed_below)
  qed
  have d: "Missed (snd (UnlockCounter bsc)) = Missed (bsc\<lparr>counterLocked := False\<rparr>)"
    by (simp only: u)
  note r' = trans [OF d r]
  have e': "err_of (Missed (snd (UnlockCounter bsc))) \<noteq> Some ErrCounterLocked"
    using e by (simp add: u)
  have f': "1 <s thr \<longrightarrow>
        Missed (snd (UnlockCounter (Missed_times n (NewBaseSignCtrled d l thr rnk im)))) =
          (None, [Info ''Missed a block (%v/%v)'' [1, sint thr]],
           (NewBaseSignCtrled d l thr rnk im)\<lparr>counterLocked := False, missedInARow := 1\<rparr>)"
    using f by blast
  show ?thesis
    by (intro conjI) (fact a b c u d e' r' f')+
qed

theorem Missed_while_locked_witness:
  "counterLocked fresh_2_2
   \<and> Missed fresh_2_2 = (Some ErrCounterLocked, [], fresh_2_2)
   \<and> Missed_times 5 fresh_2_2 = fresh_2_2
   \<and> err_of (Missed (Missed_times 5 fresh_2_2)) = Some ErrCounterLocked
   \<and> Missed (snd (UnlockCounter fresh_2_2)) =
       (None, [Info ''Missed a block (%v/%v)'' [1, 2]],
        fresh_2_2\<lparr>counterLocked := False, missedInARow := 1\<rparr>)
   \<and> Missed (snd (UnlockCounter (Missed_times 5 (NewBaseSignCtrled () None 2 2 ())))) =
       (None, [Info ''Missed a block (%v/%v)'' [1, 2]],
        (NewBaseSignCtrled () None 2 2 ())\<lparr>counterLocked := False, missedInARow := 1\<rparr>)"
proof -
  note T = Missed_while_locked [where bsc = fresh_2_2 and n = 5 and d = "()" and l = None
      and thr = 2 and rnk = 2 and im = "()"]
  have h: "counterLocked fresh_2_2"
    by (simp add: fresh_2_2_eq)
  have k: "(1 :: 64 word) <s 2"
    by (simp add: word_sless_alt)
  have mm: "missedInARow fresh_2_2 = 0" and tt: "threshold fresh_2_2 = 2"
    by (simp_all add: fresh_2_2_eq)
  note X = T [THEN conjunct2, THEN conjunct2, THEN conjunct2, THEN conjunct2, THEN conjunct2,
      THEN conjunct2, THEN conjunct1]
  from T h have "Missed fresh_2_2 = (Some ErrCounterLocked, [], fresh_2_2)"
    and "Missed_times 5 fresh_2_2 = fresh_2_2"
    and "err_of (Missed (Missed_times 5 fresh_2_2)) = Some ErrCounterLocked"
    by blast+
  moreover from X have "Missed (snd (UnlockCounter fresh_2_2)) =
       (None, [Info ''Missed a block (%v/%v)'' [1, 2]],
        fresh_2_2\<lparr>counterLocked := False, missedInARow := 1\<rparr>)"
    by (simp add: mm tt word_sless_alt)
  moreover from T k have "Missed (snd (UnlockCounter (Missed_times 5 (NewBaseSignCtrled () None 2 2 ())))) =
       (None, [Info ''Missed a block (%v/%v)'' [1, 2]],
        (NewBaseSignCtrled () None 2 2 ())\<lparr>counterLocked := False, missedInARow := 1\<rparr>)"
    by simp
  ultimately show ?thesis
    using h by (simp only: simp_thms)
qed

subsection \<open>The rank\<close>

text \<open>
  Claim C6, as stated, fails: \<open>SetRank\<close> stores the rank it is given, so it raises
  the rank of a fresh standby from 2 to 5, and \<open>SetRank(0)\<close> leaves a rank below 1.
\<close>

theorem SetRank_raises_rank:
  "rank fresh_2_2 = 2
   \<and> rank (exec_ops [OpSetRank 5] fresh_2_2) = 5
   \<and> rank fresh_2_2 <s rank (exec_ops [OpSetRank 5] fresh_2_2)
   \<and> rank (exec_ops [OpSetRank 0] fresh_2_2) <s 1"
  by (simp add: fresh_2_2_eq run_defs)

text \<open>
  Claim C6, amended. From a receiver with rank at least 1, after any calls other than
  \<open>SetRank\<close> the rank is still at least 1, and it is never higher after further such
  calls than it was before them: it only moves toward 1. \<open>SetRank\<close> assigns the
  rank it is given.
\<close>

theorem rank_moves_toward_1_without_SetRank:
  assumes "1 \<le>s rank bsc" and "\<forall>x \<in> set (xs @ ys). \<not> is_SetRank x"
  shows "1 \<le>s rank (exec_ops (xs @ ys) bsc)
       \<and> rank (exec_ops (xs @ ys) bsc) \<le>s rank (exec_ops xs bsc)
       \<and> rank (SetRank r bsc) = r"
proof -
  have "1 \<le>s rank (exec_ops xs bsc)"
    using exec_ops_rank [of bsc xs] assms by simp
  then have "1 \<le>s rank (exec_ops ys (exec_ops xs bsc))
      \<and> rank (exec_ops ys (exec_ops xs bsc)) \<le>s rank (exec_ops xs bsc)"
    using assms(2) by (intro exec_ops_rank) simp_all
  then show ?thesis by (simp add: exec_ops_append SetRank_def)
qed

theorem rank_moves_toward_1_without_SetRank_witness:
  "sint (rank (exec_ops [OpMissed, OpMissed] standby_3_3)) = 3
   \<and> sint (rank (exec_ops ([OpMissed, OpMissed] @ [OpMissed, OpPromote, OpPromote, OpReset]) standby_3_3)) = 1
   \<and> 1 \<le>s rank (exec_ops ([OpMissed, OpMissed] @ [OpMissed, OpPromote, OpPromote, OpReset]) standby_3_3)
   \<and> rank (exec_ops ([OpMissed, OpMissed] @ [OpMissed, OpPromote, OpPromote, OpReset]) standby_3_3)
        \<le>s rank (exec_ops [OpMissed, OpMissed] standby_3_3)"
proof -
  have h1: "1 \<le>s rank standby_3_3"
    by (simp add: standby_3_3_eq word_sle_eq)
  have h2: "\<forall>x \<in> set ([OpMissed, OpMissed] @ [OpMissed, OpPromote, OpPromote, OpReset]). \<not> is_SetRank x"
    by simp
  have a: "sint (rank (exec_ops [OpMissed, OpMissed] standby_3_3)) = 3"
    by (simp add: standby_3_3_eq run_defs)
  have b: "sint (rank (exec_ops ([OpMissed, OpMissed] @ [OpMissed, OpPromote, OpPromote, OpReset]) standby_3_3)) = 1"
    by (simp add: standby_3_3_eq run_defs)
  from rank_moves_toward_1_without_SetRank [OF h1 h2] a b show ?thesis by blast
qed

subsection \<open>Idempotence and round trips\<close>

text \<open>
  Claim C9. A second \<open>Reset\<close> right after a \<open>Reset\<close> logs nothing and
  changes nothing, and for a counter in its range (\<open>missedInARow \<ge> 0\<close>) the counter
  is 0 after the first and after the second. \<open>LockCounter\<close> and
  \<open>UnlockCounter\<close> are idempotent in the same sense, and from any state
  \<open>UnlockCounter\<close> then \<open>LockCounter\<close> leaves the receiver locked and
  otherwise as it was, \<open>LockCounter\<close> then \<open>UnlockCounter\<close> unlocked and
  otherwise as it was.
\<close>

theorem Reset_and_lock_idempotent:
  "Reset (snd (Reset bsc)) = ([], snd (Reset bsc))
   \<and> (0 \<le>s missedInARow bsc \<longrightarrow>
        missedInARow (snd (Reset bsc)) = 0 \<and> missedInARow (snd (Reset (snd (Reset bsc)))) = 0)
   \<and> LockCounter (snd (LockCounter bsc)) = ([], snd (LockCounter bsc))
   \<and> UnlockCounter (snd (UnlockCounter bsc)) = ([], snd (UnlockCounter bsc))
   \<and> snd (LockCounter (snd (UnlockCounter bsc))) = bsc\<lparr>counterLocked := True\<rparr>
   \<and> snd (UnlockCounter (snd (LockCounter bsc))) = bsc\<lparr>counterLocked := False\<rparr>"
proof -
  have "0 \<le>s missedInARow bsc \<Longrightarrow> \<not> 0 <s missedInARow bsc \<Longrightarrow> missedInARow bsc = 0"
    by (simp add: word_sle_eq word_sless_alt word_eq_iff_signed [where ?'a = int])
  then show ?thesis
    by (auto simp: Reset_def LockCounter_def UnlockCounter_def)
qed

theorem Reset_and_lock_idempotent_witness:
  "0 \<le>s missedInARow (Missed_times 2 standby_3_3)
   \<and> missedInARow (Missed_times 2 standby_3_3) = 2
   \<and> missedInARow (snd (Reset (Missed_times 2 standby_3_3))) = 0
   \<and> missedInARow (snd (Reset (snd (Reset (Missed_times 2 standby_3_3))))) = 0"
proof -
  have s: "Missed_times 2 standby_3_3 = \<lparr>Logger = (), counterLocked = False, currentHeight = 10,
      missedInARow = 2, threshold = 3, rank = 3, impl = ()\<rparr>"
    by (simp add: standby_3_3_eq run_defs numeral_2_eq_2)
  have h: "0 \<le>s missedInARow (Missed_times 2 standby_3_3)"
    and m: "missedInARow (Missed_times 2 standby_3_3) = 2"
    by (simp_all add: s word_sle_eq)
  from Reset_and_lock_idempotent [of "Missed_times 2 standby_3_3"] h m show ?thesis by blast
qed

subsection \<open>Independence of \<open>impl\<close>\<close>

text \<open>
  Claim C10. No operation reads \<open>impl\<close>: with another value stored in
  \<open>impl\<close>, every call returns the same error and the same trace, and the same
  receiver up to the stored \<open>impl\<close>; so do sequences of calls, the constructor and
  the getters. The hooks that \<open>Missed\<close> and \<open>Promote\<close> run are the two
  empty methods of the base type, which return the receiver untouched.
\<close>

theorem impl_is_never_invoked:
  "apply_op x (bsc\<lparr>impl := i\<rparr>) =
     (err_of (apply_op x bsc), trace_of (apply_op x bsc), (state_of (apply_op x bsc))\<lparr>impl := i\<rparr>)
   \<and> exec_ops ops (bsc\<lparr>impl := i\<rparr>) = (exec_ops ops bsc)\<lparr>impl := i\<rparr>
   \<and> NewBaseSignCtrled d l thr rnk i = (NewBaseSignCtrled d l thr rnk j)\<lparr>impl := i\<rparr>
   \<and> OnMissedTooMany (bsc\<lparr>impl := i\<rparr>) = ([], bsc\<lparr>impl := i\<rparr>)
   \<and> OnPromote (bsc\<lparr>impl := i\<rparr>) = ([], bsc\<lparr>impl := i\<rparr>)
   \<and> GetCurrentHeight (bsc\<lparr>impl := i\<rparr>) = GetCurrentHeight bsc
   \<and> GetThreshold (bsc\<lparr>impl := i\<rparr>) = GetThreshold bsc
   \<and> GetMissedInARow (bsc\<lparr>impl := i\<rparr>) = GetMissedInARow bsc
   \<and> GetRank (bsc\<lparr>impl := i\<rparr>) = GetRank bsc"
  by (simp add: exec_ops_impl NewBaseSignCtrled_def OnMissedTooMany_def OnPromote_def
        GetCurrentHeight_def GetThreshold_def GetMissedInARow_def GetRank_def)
     (rule apply_op_impl)

section \<open>Properties of the message loop\<close>

lemma run_iter_cases:
  assumes "ReadMsg (SecretConn pv) = ((msg, rerr), c1)"
    and "HandleRequest msg (pv\<lparr>SecretConn := c1\<rparr>) = ((resp, err), pv2)"
    and "WriteMsg resp (SecretConn pv2) = (werr, c2)"
  shows "run_iter ReadMsg WriteMsg HandleRequest pv =
     (if rerr = Some EOF then (Continue, [], pv\<lparr>SecretConn := c1\<rparr>)
      else
        (if err = Some ErrMustShutdown then Return else Continue,
         (case rerr of None \<Rightarrow> []
          | Some e \<Rightarrow> [Printf ''[ERR] signctrl: couldn't read message: %v\<newline>'' [e]])
         @ Dispatch msg # Write resp
         # (case werr of None \<Rightarrow> []
            | Some e \<Rightarrow> [Printf ''[ERR] signctrl: couldn't write message: %v\<newline>'' [e]])
         @ (case err of None \<Rightarrow> []
            | Some e \<Rightarrow> Printf ''[ERR] signctrl: couldn't handle request: %v\<newline>'' [e]
                # (if e = ErrMustShutdown
                   then [Printf ''[DEBUG] signctrl: Terminating run() goroutine'' [],
                         CloseReader, CloseWriter, Stop]
                   else [])),
         pv2\<lparr>SecretConn := c2\<rparr>))"
  using assms by (simp add: run_iter_def Let_def split: option.splits)

lemma run_iter_Return_trace:
  assumes "run_iter ReadMsg WriteMsg HandleRequest pv = (Return, evs, pv')"
  shows "\<exists>evs0. evs = evs0 @ [Printf ''[ERR] signctrl: couldn't handle request: %v\<newline>'' [ErrMustShutdown],
            Printf ''[DEBUG] signctrl: Terminating run() goroutine'' [],
            CloseReader, CloseWriter, Stop]"
proof -
  obtain msg rerr c1 where r: "ReadMsg (SecretConn pv) = ((msg, rerr), c1)"
    by (metis surj_pair)
  obtain resp err pv2 where h: "HandleRequest msg (pv\<lparr>SecretConn := c1\<rparr>) = ((resp, err), pv2)"
    by (metis surj_pair)
  obtain werr c2 where w: "WriteMsg resp (SecretConn pv2) = (werr, c2)"
    by (metis surj_pair)
  from assms show ?thesis
    unfolding run_iter_cases [where ReadMsg = ReadMsg and pv = pv and HandleRequest = HandleRequest
        and WriteMsg = WriteMsg, OF r h w]
    by (auto split: if_splits option.splits)
qed

lemma run_Some_trace:
  assumes "run ReadMsg WriteMsg HandleRequest st = Some res"
  shows "\<exists>evs0. fst res = evs0 @ [Printf ''[ERR] signctrl: couldn't handle request: %v\<newline>'' [ErrMustShutdown],
            Printf ''[DEBUG] signctrl: Terminating run() goroutine'' [],
            CloseReader, CloseWriter, Stop]"
proof (rule run.raw_induct [where P = "\<lambda>R W H st res. \<exists>evs0. fst res = evs0 @ shutdown_tail", OF _ assms,
        unfolded shutdown_tail_def], goal_cases)
  case (1 run' R W H st res)
  obtain fl evs pv' where it: "run_iter R W H (snd st) = (fl, evs, pv')"
    by (metis surj_pair)
  show ?case
  proof (cases "fl = Return")
    case False
    then have "fl = Continue" by (cases fl) simp_all
    then have "run' R W H (fst st @ evs, pv') = Some res"
      using 1(2) it by simp
    then show ?thesis by (rule 1(1))
  next
    case True
    then have res: "res = (fst st @ evs, pv')"
      using 1(2) it by simp
    from it True obtain evs0 where
      "evs = evs0 @ [Printf ''[ERR] signctrl: couldn't handle request: %v\<newline>'' [ErrMustShutdown],
            Printf ''[DEBUG] signctrl: Terminating run() goroutine'' [],
            CloseReader, CloseWriter, Stop]"
      using run_iter_Return_trace by blast
    then show ?thesis
      by (simp add: res)
  qed
qed

lemmas loop_defs = run_iter_def script_ReadMsg_def ok_WriteMsg_def miss_HandleRequest_def
  stop_HandleRequest_def fresh_2_1_eq run_defs

lemma last_miss_pv_eq:
  "last_miss_pv = \<lparr> BaseSignCtrled = \<lparr>Logger = (), counterLocked = False, currentHeight = 1,
       missedInARow = 1, threshold = 2, rank = 1, impl = ()\<rparr>,
     CurrentHeight = 1, SecretConn = [(''miss'', None)] \<rparr>"
  by (simp add: last_miss_pv_def fresh_2_1_eq run_defs)

lemma oversized_pv_eq:
  "oversized_pv = \<lparr> BaseSignCtrled = \<lparr>Logger = (), counterLocked = False, currentHeight = 1,
       missedInARow = 0, threshold = 2, rank = 1, impl = ()\<rparr>,
     CurrentHeight = 1, SecretConn = [([], Some (OtherError ''message exceeds max size''))] \<rparr>"
  by (simp add: oversized_pv_def fresh_2_1_eq run_defs)

text \<open>
  Claim C7. Take one pass of the loop, with what the reader, the handler and the writer
  yield in it. The pass returns exactly when the read did not end in \<open>io.EOF\<close> and
  the handler returned \<open>ErrMustShutdown\<close>. A pass that returns ends its trace with
  the closing of the reader, the closing of the writer and \<open>pv.Stop()\<close>, and
  \<open>run\<close> returns with it. Every other pass (\<open>io.EOF\<close>, another read error,
  a write error, another handler error, no error) contains none of these three and
  \<open>run\<close> goes on with the next pass. Whenever \<open>run\<close> returns at all, its
  trace ends with the log of \<open>ErrMustShutdown\<close> and the shutdown sequence.
\<close>

theorem run_returns_only_on_MustShutdown:
  assumes "ReadMsg (SecretConn pv) = ((msg, rerr), c1)"
    and "HandleRequest msg (pv\<lparr>SecretConn := c1\<rparr>) = ((resp, err), pv2)"
    and "WriteMsg resp (SecretConn pv2) = (werr, c2)"
    and "run_iter ReadMsg WriteMsg HandleRequest pv = (fl, evs, pv')"
  shows "(fl = Return \<longleftrightarrow> rerr \<noteq> Some EOF \<and> err = Some ErrMustShutdown)
       \<and> (fl = Return \<longrightarrow>
            drop (length evs - 3) evs = [CloseReader, CloseWriter, Stop]
            \<and> run ReadMsg WriteMsg HandleRequest (acc, pv) = Some (acc @ evs, pv'))
       \<and> (fl = Continue \<longrightarrow>
            CloseReader \<notin> set evs \<and> CloseWriter \<notin> set evs \<and> Stop \<notin> set evs
            \<and> run ReadMsg WriteMsg HandleRequest (acc, pv)
                = run ReadMsg WriteMsg HandleRequest (acc @ evs, pv'))
       \<and> (run ReadMsg WriteMsg HandleRequest st = Some (tr, pv'') \<longrightarrow>
            drop (length tr - 5) tr =
              [Printf ''[ERR] signctrl: couldn't handle request: %v\<newline>'' [ErrMustShutdown],
               Printf ''[DEBUG] signctrl: Terminating run() goroutine'' [],
               CloseReader, CloseWriter, Stop])"
proof -
  note it = assms(4) [unfolded run_iter_cases [where ReadMsg = ReadMsg and pv = pv
        and HandleRequest = HandleRequest and WriteMsg = WriteMsg, OF assms(1-3)]]
  have a: "fl = Return \<longleftrightarrow> rerr \<noteq> Some EOF \<and> err = Some ErrMustShutdown"
    using it by (auto split: if_splits)
  have b: "drop (length evs - 3) evs = [CloseReader, CloseWriter, Stop]" if "fl = Return"
    using it that by (auto split: if_splits option.splits)
  have c: "CloseReader \<notin> set evs \<and> CloseWriter \<notin> set evs \<and> Stop \<notin> set evs" if "fl = Continue"
    using it that by (auto split: if_splits option.splits)
  have d: "run ReadMsg WriteMsg HandleRequest (acc, pv) = Some (acc @ evs, pv')" if "fl = Return"
    using that assms(4) by (subst run.simps) simp
  have e: "run ReadMsg WriteMsg HandleRequest (acc, pv)
      = run ReadMsg WriteMsg HandleRequest (acc @ evs, pv')" if "fl = Continue"
    using that assms(4) by (subst run.simps) simp
  have f: "drop (length tr - 5) tr =
      [Printf ''[ERR] signctrl: couldn't handle request: %v\<newline>'' [ErrMustShutdown],
       Printf ''[DEBUG] signctrl: Terminating run() goroutine'' [],
       CloseReader, CloseWriter, Stop]"
    if "run ReadMsg WriteMsg HandleRequest st = Some (tr, pv'')"
    using run_Some_trace [OF that] by auto
  from a b c d e f show ?thesis by blast
qed

theorem run_returns_only_on_MustShutdown_witness:
  "run script_ReadMsg ok_WriteMsg miss_HandleRequest ([], last_miss_pv) =
     Some ([Dispatch ''miss'', Write ''missed'',
            Printf ''[ERR] signctrl: couldn't handle request: %v\<newline>'' [ErrMustShutdown],
            Printf ''[DEBUG] signctrl: Terminating run() goroutine'' [],
            CloseReader, CloseWriter, Stop],
           last_miss_pv\<lparr>BaseSignCtrled := state_of (Missed (BaseSignCtrled last_miss_pv)),
                         SecretConn := []\<rparr>)
   \<and> run script_ReadMsg ok_WriteMsg miss_HandleRequest ([], oversized_pv) =
       run script_ReadMsg ok_WriteMsg miss_HandleRequest
         ([Printf ''[ERR] signctrl: couldn't read message: %v\<newline>''
             [OtherError ''message exceeds max size''],
           Dispatch [], Write ''ok''],
          oversized_pv\<lparr>SecretConn := []\<rparr>)"
proof -
  let ?evs = "[Dispatch ''miss'', Write ''missed'',
            Printf ''[ERR] signctrl: couldn't handle request: %v\<newline>'' [ErrMustShutdown],
            Printf ''[DEBUG] signctrl: Terminating run() goroutine'' [],
            CloseReader, CloseWriter, Stop] :: (string, string) run_event list"
  let ?pv' = "last_miss_pv\<lparr>BaseSignCtrled := state_of (Missed (BaseSignCtrled last_miss_pv)),
                         SecretConn := []\<rparr>"
  have r1: "script_ReadMsg (SecretConn last_miss_pv) = ((''miss'', None), [])"
    by (simp add: last_miss_pv_eq script_ReadMsg_def)
  have r2: "miss_HandleRequest ''miss'' (last_miss_pv\<lparr>SecretConn := []\<rparr>) =
      ((''missed'', Some ErrMustShutdown), ?pv')"
    by (simp add: last_miss_pv_eq loop_defs)
  have r3: "ok_WriteMsg ''missed'' (SecretConn ?pv') = (None, [])"
    by (simp add: ok_WriteMsg_def)
  have r4: "run_iter script_ReadMsg ok_WriteMsg miss_HandleRequest last_miss_pv = (Return, ?evs, ?pv')"
    by (simp add: last_miss_pv_eq loop_defs)
  let ?evs2 = "[Printf ''[ERR] signctrl: couldn't read message: %v\<newline>''
             [OtherError ''message exceeds max size''],
           Dispatch [], Write ''ok''] :: (string, string) run_event list"
  have c1: "script_ReadMsg (SecretConn oversized_pv) =
      (([], Some (OtherError ''message exceeds max size'')), [])"
    by (simp add: oversized_pv_eq script_ReadMsg_def)
  have c2: "miss_HandleRequest [] (oversized_pv\<lparr>SecretConn := []\<rparr>) =
      ((''ok'', None), oversized_pv\<lparr>SecretConn := []\<rparr>)"
    by (simp add: miss_HandleRequest_def)
  have c3: "ok_WriteMsg ''ok'' (SecretConn (oversized_pv\<lparr>SecretConn := []\<rparr>)) = (None, [])"
    by (simp add: ok_WriteMsg_def)
  have c4: "run_iter script_ReadMsg ok_WriteMsg miss_HandleRequest oversized_pv =
      (Continue, ?evs2, oversized_pv\<lparr>SecretConn := []\<rparr>)"
    by (simp add: oversized_pv_eq loop_defs)
  from run_returns_only_on_MustShutdown
    [where ReadMsg = script_ReadMsg and WriteMsg = ok_WriteMsg
       and HandleRequest = miss_HandleRequest and acc = "[]", OF r1 r2 r3 r4]
  have "run script_ReadMsg ok_WriteMsg miss_HandleRequest ([], last_miss_pv) = Some ([] @ ?evs, ?pv')"
    by blast
  moreover from run_returns_only_on_MustShutdown
    [where ReadMsg = script_ReadMsg and WriteMsg = ok_WriteMsg
       and HandleRequest = miss_HandleRequest and acc = "[]", OF c1 c2 c3 c4]
  have "run script_ReadMsg ok_WriteMsg miss_HandleRequest ([], oversized_pv) =
      run script_ReadMsg ok_WriteMsg miss_HandleRequest ([] @ ?evs2, oversized_pv\<lparr>SecretConn := []\<rparr>)"
    by blast
  ultimately show ?thesis
    by (simp only: append_Nil simp_thms)
qed

text \<open>
  Claim C8 fails on the code for read errors other than \<open>io.EOF\<close>: only the
  \<open>io.EOF\<close> branch has a \<open>continue\<close>. When the reader rejects a frame as too
  large, the pass logs the error and then hands the unread (zero) message to the
  handler and writes the handler's response; if the handler answers it with
  \<open>ErrMustShutdown\<close>, that same pass shuts the loop down.
\<close>

theorem unread_message_is_dispatched:
  "run_iter script_ReadMsg ok_WriteMsg miss_HandleRequest oversized_pv =
     (Continue,
      [Printf ''[ERR] signctrl: couldn't read message: %v\<newline>''
         [OtherError ''message exceeds max size''],
       Dispatch [], Write ''ok''],
      oversized_pv\<lparr>SecretConn := []\<rparr>)
   \<and> run_iter script_ReadMsg ok_WriteMsg stop_HandleRequest oversized_pv =
     (Return,
      [Printf ''[ERR] signctrl: couldn't read message: %v\<newline>''
         [OtherError ''message exceeds max size''],
       Dispatch [], Write [],
       Printf ''[ERR] signctrl: couldn't handle request: %v\<newline>'' [ErrMustShutdown],
       Printf ''[DEBUG] signctrl: Terminating run() goroutine'' [],
       CloseReader, CloseWriter, Stop],
      oversized_pv\<lparr>SecretConn := []\<rparr>)"
  by (simp add: oversized_pv_eq loop_defs)

end
